theory Spec2Isabelle
  imports Complex_Main
begin

section \<open>Geometry helpers of Kinegami: vectors, angles, circles and arcs\<close>

text \<open>
  The embedding follows \<^verbatim>\<open>geometryHelpers.py\<close>. A numpy array of shape (3,) is a
  triple of reals; arithmetic is the exact arithmetic of the reals, so rounding,
  overflow and signed zeros of float64 are outside the model. The one float effect
  that the code can reach without rounding is kept: numpy divides a zero vector by
  its zero norm without raising and yields an array of NaN, which is \<open>None\<close> here.
\<close>

subsection \<open>Vectors\<close>

type_synonym vec3 = "real \<times> real \<times> real"

fun dot :: "vec3 \<Rightarrow> vec3 \<Rightarrow> real" where
  "dot (a1, a2, a3) (b1, b2, b3) = a1 * b1 + a2 * b2 + a3 * b3"

fun cross :: "vec3 \<Rightarrow> vec3 \<Rightarrow> vec3" where
  "cross (a1, a2, a3) (b1, b2, b3) =
     (a2 * b3 - a3 * b2, a3 * b1 - a1 * b3, a1 * b2 - a2 * b1)"

fun vadd :: "vec3 \<Rightarrow> vec3 \<Rightarrow> vec3" where
  "vadd (a1, a2, a3) (b1, b2, b3) = (a1 + b1, a2 + b2, a3 + b3)"

fun vsub :: "vec3 \<Rightarrow> vec3 \<Rightarrow> vec3" where
  "vsub (a1, a2, a3) (b1, b2, b3) = (a1 - b1, a2 - b2, a3 - b3)"

fun vneg :: "vec3 \<Rightarrow> vec3" where
  "vneg (a1, a2, a3) = (- a1, - a2, - a3)"

fun smul :: "real \<Rightarrow> vec3 \<Rightarrow> vec3" where
  "smul k (a1, a2, a3) = (k * a1, k * a2, k * a3)"

fun sdiv :: "vec3 \<Rightarrow> real \<Rightarrow> vec3" where
  "sdiv (a1, a2, a3) k = (a1 / k, a2 / k, a3 / k)"

definition vzero :: vec3 where
  "vzero = (0, 0, 0)"

text \<open>\<^verbatim>\<open>numpy.linalg.norm\<close> of a vector: the Euclidean length.\<close>

definition norm3 :: "vec3 \<Rightarrow> real" where
  "norm3 v = sqrt (dot v v)"

text \<open>
  \<^verbatim>\<open>v / norm(v)\<close>: when the norm is zero every component is 0/0, which numpy
  evaluates to NaN with a warning and no exception.
\<close>

definition normalized :: "vec3 \<Rightarrow> vec3 option" where
  "normalized v = (if norm3 v = 0 then None else Some (sdiv v (norm3 v)))"

datatype py_error = AssertionError | IndexError

subsection \<open>unitNormalToBoth\<close>

text \<open>
  \<^verbatim>\<open>scipy.linalg.null_space\<close> is a library routine, a parameter of the model: it
  takes the two rows of the 2 by 3 matrix and gives the columns of the basis it
  found. What the library documents of its result (an orthonormal basis of the null
  space, which for two rows in three dimensions has at least one element) is the
  predicate \<open>null_space_ok\<close>.
\<close>

type_synonym null_space_fn = "vec3 \<Rightarrow> vec3 \<Rightarrow> vec3 list"

definition null_space_ok :: "vec3 \<Rightarrow> vec3 \<Rightarrow> vec3 list \<Rightarrow> bool" where
  "null_space_ok u v cols \<longleftrightarrow>
     cols \<noteq> [] \<and> list_all (\<lambda>w. norm3 w = 1 \<and> dot u w = 0 \<and> dot v w = 0) cols"

definition unitNormalToBoth :: "null_space_fn \<Rightarrow> vec3 \<Rightarrow> vec3 \<Rightarrow> py_error + vec3" where
  "unitNormalToBoth null_space u v =
     (let cp = cross u v in
      if norm3 cp > 0 then Inr (sdiv cp (norm3 cp))
      else (case null_space u v of
              [] \<Rightarrow> Inl IndexError
            | w # _ \<Rightarrow> Inr w))"

subsection \<open>signedAngle and wrapAngle\<close>

text \<open>\<^verbatim>\<open>numpy.arctan2 y x\<close> on the reals: the angle of the point (x, y), in (-pi, pi].\<close>

definition arctan2 :: "real \<Rightarrow> real \<Rightarrow> real" where
  "arctan2 y x =
     (if x > 0 then arctan (y / x)
      else if x < 0 then (if y \<ge> 0 then arctan (y / x) + pi else arctan (y / x) - pi)
      else if y > 0 then pi / 2
      else if y < 0 then - (pi / 2)
      else 0)"

text \<open>The result is \<open>None\<close> when a or b has norm zero: numpy then computes with NaN.\<close>

definition signedAngle :: "vec3 \<Rightarrow> vec3 \<Rightarrow> vec3 \<Rightarrow> real option" where
  "signedAngle a b n =
     (case (normalized a, normalized b) of
        (Some a', Some b') \<Rightarrow>
          (let n' = (if norm3 n > 0 then sdiv n (norm3 n) else n)
           in Some (arctan2 (dot (cross a' b') n') (dot a' b')))
      | _ \<Rightarrow> None)"

text \<open>Python's \<^verbatim>\<open>%\<close> on floats takes the sign of the divisor: x - floor (x / y) * y.\<close>

definition py_mod :: "real \<Rightarrow> real \<Rightarrow> real" where
  "py_mod x y = x - of_int \<lfloor>x / y\<rfloor> * y"

definition wrapAngle :: "real \<Rightarrow> real" where
  "wrapAngle angle = py_mod angle (2 * pi)"

subsection \<open>linspace\<close>

text \<open>
  \<^verbatim>\<open>numpy.linspace start stop num\<close> with the default \<^verbatim>\<open>endpoint=True\<close>: num samples
  \<open>start + i * step\<close> with \<open>step = (stop - start) / (num - 1)\<close>, the last one
  overwritten with \<open>stop\<close> when \<open>num > 1\<close>; one sample is \<open>[start]\<close>.
\<close>

definition linspace :: "real \<Rightarrow> real \<Rightarrow> nat \<Rightarrow> real list" where
  "linspace start stop num =
     (if num = 0 then []
      else if num = 1 then [start]
      else (map (\<lambda>i. start + real i * ((stop - start) / real (num - 1))) [0..<num])
             [num - 1 := stop])"

subsection \<open>Circle3D\<close>

record Circle3D =
  circ_r :: real
  circ_c :: vec3
  circ_n :: vec3

definition Circle3D_init :: "real \<Rightarrow> vec3 \<Rightarrow> vec3 \<Rightarrow> py_error + Circle3D" where
  "Circle3D_init radius center normal =
     (if norm3 normal > 0
      then Inr \<lparr>circ_r = radius, circ_c = center, circ_n = sdiv normal (norm3 normal)\<rparr>
      else Inl AssertionError)"

definition circle_point :: "Circle3D \<Rightarrow> vec3 \<Rightarrow> vec3 \<Rightarrow> real \<Rightarrow> vec3" where
  "circle_point C uhat vhat t =
     vadd (vadd (circ_c C) (smul (circ_r C * cos t) uhat)) (smul (circ_r C * sin t) vhat)"

definition Circle3D_interpolate ::
  "null_space_fn \<Rightarrow> Circle3D \<Rightarrow> nat \<Rightarrow> py_error + vec3 list" where
  "Circle3D_interpolate null_space C count =
     (let angle = linspace 0 (2 * pi) count in
      case unitNormalToBoth null_space (circ_n C) (circ_n C) of
        Inl e \<Rightarrow> Inl e
      | Inr uhat \<Rightarrow>
          (let vhat = cross (circ_n C) uhat
           in Inr (map (circle_point C uhat vhat) angle)))"

subsection \<open>Arc3D\<close>

text \<open>
  \<^verbatim>\<open>Rotation.from_rotvec(rv).apply(x)\<close> of scipy, by its documented meaning: the
  rotation of x about the axis rv by the angle \<open>norm3 rv\<close> (Rodrigues' formula), the
  identity for the zero vector.
\<close>

definition rotvec_apply :: "vec3 \<Rightarrow> vec3 \<Rightarrow> vec3" where
  "rotvec_apply rv x =
     (let ang = norm3 rv in
      if ang = 0 then x
      else (let k = sdiv rv ang in
            vadd (vadd (smul (cos ang) x) (smul (sin ang) (cross k x)))
                 (smul ((1 - cos ang) * dot k x) k)))"

text \<open>
  The fields computed from \<^verbatim>\<open>startDir / norm(startDir)\<close> are options: \<open>None\<close> is the
  array of NaN that numpy produces for a zero \<^verbatim>\<open>startDir\<close>. The field \<^verbatim>\<open>rot\<close> is
  kept as its rotation vector.
\<close>

record Arc3D =
  circleCenter :: vec3
  startPoint :: vec3
  startTangent :: "vec3 option"
  theta :: real
  centerToStart :: vec3
  arc_r :: real
  startNormal :: vec3
  binormal :: "vec3 option"
  rot :: "vec3 option"
  centerToEnd :: "vec3 option"
  endPoint :: "vec3 option"
  endNormal :: "vec3 option"
  endTangent :: "vec3 option"

definition Arc3D_init :: "vec3 \<Rightarrow> vec3 \<Rightarrow> vec3 \<Rightarrow> real \<Rightarrow> py_error + Arc3D" where
  "Arc3D_init center start startDir th =
     (if \<not> norm3 (vsub start center) > 0 then Inl AssertionError
      else if \<not> \<bar>dot startDir (vsub start center)\<bar> < 1 / 1000000 then Inl AssertionError
      else
        (let tangent = normalized startDir;
             c2s = vsub start center;
             r = norm3 c2s;
             snormal = sdiv (vneg c2s) r;
             bin = map_option (\<lambda>t. cross t snormal) tangent;
             rv = map_option (smul th) bin;
             c2e = map_option (\<lambda>w. rotvec_apply w c2s) rv;
             endN = map_option (\<lambda>e. sdiv (vneg e) r) c2e
         in Inr \<lparr>circleCenter = center, startPoint = start, startTangent = tangent,
                 theta = th, centerToStart = c2s, arc_r = r, startNormal = snormal,
                 binormal = bin, rot = rv, centerToEnd = c2e,
                 endPoint = map_option (vadd center) c2e,
                 endNormal = endN,
                 endTangent = (case (endN, bin) of
                                 (Some e, Some b) \<Rightarrow> Some (cross e b)
                               | _ \<Rightarrow> None)\<rparr>))"

definition arc_point :: "Arc3D \<Rightarrow> vec3 \<Rightarrow> vec3 \<Rightarrow> real \<Rightarrow> vec3" where
  "arc_point A uhat vhat t =
     vadd (vadd (circleCenter A) (smul (arc_r A * cos t) uhat)) (smul (arc_r A * sin t) vhat)"

text \<open>
  Each sample is \<open>None\<close> when \<^verbatim>\<open>vhat\<close> is NaN: every product with a NaN component is
  NaN, also the one with \<open>sin 0 = 0\<close>.
\<close>

definition Arc3D_interpolate :: "Arc3D \<Rightarrow> nat \<Rightarrow> vec3 option list" where
  "Arc3D_interpolate A count =
     (let angle = linspace 0 (theta A) count;
          uhat = vneg (startNormal A);
          vhat = map_option (\<lambda>b. cross b uhat) (binormal A)
      in map (\<lambda>t. map_option (\<lambda>vh. arc_point A uhat vh t) vhat) angle)"

section \<open>Facts about vectors\<close>

lemma dot_cross_left: "dot u (cross u v) = 0"
  by (cases u; cases v) (simp add: algebra_simps)

lemma dot_cross_right: "dot v (cross u v) = 0"
  by (cases u; cases v) (simp add: algebra_simps)

lemma dot_commute: "dot u v = dot v u"
  by (cases u; cases v) (simp add: algebra_simps)

lemma dot_self_nonneg: "0 \<le> dot v v"
  by (cases v) simp

lemma norm3_nonneg: "0 \<le> norm3 v"
  by (simp add: norm3_def dot_self_nonneg)

lemma dot_self_eq_0: "dot v v = 0 \<longleftrightarrow> v = vzero"
  by (cases v) (simp add: vzero_def sum_squares_eq_zero_iff add_nonneg_eq_0_iff)

lemma norm3_eq_0: "norm3 v = 0 \<longleftrightarrow> v = vzero"
  by (simp add: norm3_def dot_self_eq_0)

lemma norm3_pos: "0 < norm3 v \<longleftrightarrow> v \<noteq> vzero"
  using norm3_nonneg [of v] norm3_eq_0 [of v] by linarith

lemma norm3_sq: "(norm3 v)\<^sup>2 = dot v v"
  by (simp add: norm3_def dot_self_nonneg)

lemma dot_sdiv_left: "dot (sdiv u k) v = dot u v / k"
  by (cases u; cases v) (simp add: add_divide_distrib)

lemma dot_sdiv_right: "dot u (sdiv v k) = dot u v / k"
  by (cases u; cases v) (simp add: add_divide_distrib)

lemma dot_smul_left: "dot (smul k u) v = k * dot u v"
  by (cases u; cases v) (simp add: algebra_simps)

lemma dot_smul_right: "dot u (smul k v) = k * dot u v"
  by (cases u; cases v) (simp add: algebra_simps)

lemma norm3_sdiv_self: "v \<noteq> vzero \<Longrightarrow> norm3 (sdiv v (norm3 v)) = 1"
proof -
  assume nz: "v \<noteq> vzero"
  have p: "0 < norm3 v" using nz by (simp add: norm3_pos)
  have "dot (sdiv v (norm3 v)) (sdiv v (norm3 v)) = dot v v / (norm3 v)\<^sup>2"
    by (simp add: dot_sdiv_left dot_sdiv_right power2_eq_square)
  also have "\<dots> = 1" using p by (simp add: norm3_sq [symmetric])
  finally show ?thesis by (simp add: norm3_def)
qed

lemma py_mod_range: "0 < y \<Longrightarrow> 0 \<le> py_mod x y \<and> py_mod x y < y"
proof -
  assume y: "0 < y"
  define q where "q = real_of_int \<lfloor>x / y\<rfloor>"
  have a: "q \<le> x / y" unfolding q_def by (rule of_int_floor_le)
  have b: "x / y < q + 1" unfolding q_def by linarith
  have xy: "x / y * y = x" using y by simp
  have "q * y \<le> x / y * y" using a y by (intro mult_right_mono) simp_all
  then have lo: "q * y \<le> x" using xy by simp
  have "x / y * y < (q + 1) * y" using b y by (intro mult_strict_right_mono) simp_all
  then have hi: "x < q * y + y" using xy by (simp add: algebra_simps)
  show ?thesis using lo hi by (simp add: py_mod_def q_def [symmetric])
qed

lemma py_mod_periodic: "y \<noteq> 0 \<Longrightarrow> py_mod (x + y * of_int k) y = py_mod x y"
proof -
  assume y: "y \<noteq> 0"
  have "(x + y * of_int k) / y = x / y + of_int k" using y by (simp add: add_divide_distrib)
  then have "\<lfloor>(x + y * of_int k) / y\<rfloor> = \<lfloor>x / y\<rfloor> + k" by simp
  then show ?thesis by (simp add: py_mod_def algebra_simps)
qed

lemma dot_cross_left': "dot (cross u v) u = 0"
  by (cases u; cases v) (simp add: algebra_simps)

lemma dot_cross_right': "dot (cross u v) v = 0"
  by (cases u; cases v) (simp add: algebra_simps)

lemma norm3_unit_x: "norm3 (1, 0, 0) = 1" by (simp add: norm3_def)
lemma norm3_unit_y: "norm3 (0, 1, 0) = 1" by (simp add: norm3_def)
lemma norm3_unit_z: "norm3 (0, 0, 1) = 1" by (simp add: norm3_def)

lemma vsub_eq_vzero: "vsub s c = vzero \<longleftrightarrow> s = c"
  by (cases s; cases c) (simp add: vzero_def)

section \<open>wrapAngle\<close>

lemma wrapAngle_negative: "- (2 * pi) \<le> x \<Longrightarrow> x < 0 \<Longrightarrow> wrapAngle x = x + 2 * pi"
proof -
  assume lo: "- (2 * pi) \<le> x" and hi: "x < 0"
  have "- 1 \<le> x / (2 * pi)" using lo by (simp add: pos_le_divide_eq)
  moreover have "x / (2 * pi) < 0" using hi by (simp add: divide_neg_pos)
  ultimately have "\<lfloor>x / (2 * pi)\<rfloor> = - 1" by (simp add: floor_eq_iff)
  then show ?thesis by (simp add: wrapAngle_def py_mod_def)
qed

text \<open>
  C7: for every real angle x, \<open>wrapAngle x\<close> lies in [0, 2 pi); a negative input wraps
  forward (in [-2 pi, 0) the result is x + 2 pi, and in general the result differs from
  x by a whole number of turns, as the mathematical modulo does); and
  \<open>wrapAngle (x + 2 pi k) = wrapAngle x\<close> for every integer k.
\<close>

theorem wrapAngle_range_periodic:
  "0 \<le> wrapAngle x \<and> wrapAngle x < 2 * pi
   \<and> (- (2 * pi) \<le> x \<and> x < 0 \<longrightarrow> wrapAngle x = x + 2 * pi)
   \<and> (\<exists>j::int. wrapAngle x = x + 2 * pi * of_int j)
   \<and> wrapAngle (x + 2 * pi * of_int k) = wrapAngle x"
proof -
  have r: "0 \<le> wrapAngle x \<and> wrapAngle x < 2 * pi"
    using py_mod_range [of "2 * pi" x] by (simp add: wrapAngle_def)
  have p: "wrapAngle (x + 2 * pi * of_int k) = wrapAngle x"
    using py_mod_periodic [of "2 * pi" x k] by (simp add: wrapAngle_def)
  have "wrapAngle x = x + 2 * pi * of_int (- \<lfloor>x / (2 * pi)\<rfloor>)"
    by (simp add: wrapAngle_def py_mod_def)
  then have e: "\<exists>j::int. wrapAngle x = x + 2 * pi * of_int j" by blast
  show ?thesis using r p e wrapAngle_negative by blast
qed

theorem wrapAngle_range_periodic_witness:
  "- (2 * pi) \<le> - (pi / 2) \<and> - (pi / 2) < (0::real) \<and> wrapAngle (- (pi / 2)) = 3 * pi / 2
   \<and> wrapAngle (- (pi / 2) + 2 * pi * of_int 3) = 3 * pi / 2"
  using wrapAngle_range_periodic [of "- (pi / 2)" 3] by simp

section \<open>unitNormalToBoth\<close>


lemma unitNormalToBoth_degenerate:
  assumes "cross u v = vzero"
  shows "unitNormalToBoth ns u v = (case ns u v of [] \<Rightarrow> Inl IndexError | w # _ \<Rightarrow> Inr w)"
  using assms norm3_eq_0 [of "cross u v"] by (simp add: unitNormalToBoth_def Let_def)



section \<open>Construction of Arc3D\<close>

text \<open>
  C2: the construction of an Arc3D fails exactly on invalid input: it raises when
  the start point equals the circle centre or when the absolute value of
  \<open>dot startDir (startPoint - circleCenter)\<close> is not below 1e-6, and it returns an
  object when the start point differs from the centre and that value is below 1e-6.
\<close>

theorem Arc3D_init_fails_iff:
  "(Arc3D_init c s d th = Inl AssertionError
      \<longleftrightarrow> s = c \<or> 1 / 1000000 \<le> \<bar>dot d (vsub s c)\<bar>)
   \<and> ((\<exists>A. Arc3D_init c s d th = Inr A)
      \<longleftrightarrow> s \<noteq> c \<and> \<bar>dot d (vsub s c)\<bar> < 1 / 1000000)"
  by (auto simp: Arc3D_init_def Let_def norm3_pos vsub_eq_vzero not_less)

theorem Arc3D_init_fails_iff_witness:
  "Arc3D_init (0, 0, 0) (1, 0, 0) (1, 0, 0) (pi / 2) = Inl AssertionError
   \<and> (\<exists>A. Arc3D_init (0, 0, 0) (1, 0, 0) (0, 0, 1) (pi / 2) = Inr A)"
  using Arc3D_init_fails_iff [of "(0, 0, 0)" "(1, 0, 0)" "(1, 0, 0)" "pi / 2"]
    Arc3D_init_fails_iff [of "(0, 0, 0)" "(1, 0, 0)" "(0, 0, 1)" "pi / 2"]
  by simp

text \<open>
  C3: the claim is that construction fails at once when \<open>startDir\<close> is the zero
  vector. The code has no such check: with centre (0,0,0), start point (1,0,0), zero
  \<open>startDir\<close> and sweep pi/2 both assertions pass, an object is returned, and the
  fields computed from the tangent, as well as every sample, are NaN.
\<close>

theorem Arc3D_init_zero_startDir:
  "\<exists>A. Arc3D_init (0, 0, 0) (1, 0, 0) (0, 0, 0) (pi / 2) = Inr A
       \<and> startTangent A = None \<and> binormal A = None \<and> endPoint A = None
       \<and> Arc3D_interpolate A 2 = [None, None]"
  by (simp add: Arc3D_init_def Let_def norm3_def normalized_def Arc3D_interpolate_def linspace_def
      numeral_2_eq_2)

section \<open>signedAngle\<close>

lemma arctan2_range: "- pi < arctan2 y x \<and> arctan2 y x \<le> pi"
proof -
  have b: "- (pi / 2) < arctan (y / x)" "arctan (y / x) < pi / 2"
    by (rule arctan_lbound, rule arctan_ubound)
  have p: "0 < pi" by (rule pi_gt_zero)
  show ?thesis
  proof (cases "x > 0")
    case True
    then show ?thesis using b p by (simp add: arctan2_def)
  next
    case False
    note nx = this
    show ?thesis
    proof (cases "x < 0")
      case True
      show ?thesis
      proof (cases "y \<ge> 0")
        case True
        with \<open>x < 0\<close> have "y / x \<le> 0" by (simp add: divide_nonneg_neg)
        then have "arctan (y / x) \<le> 0" by simp
        then show ?thesis using True \<open>x < 0\<close> b p by (simp add: arctan2_def)
      next
        case False
        with \<open>x < 0\<close> have "0 < y / x" by (simp add: divide_neg_neg)
        then have "0 < arctan (y / x)" by simp
        then show ?thesis using False \<open>x < 0\<close> b p by (simp add: arctan2_def)
      qed
    next
      case False
      have "arctan2 y x = pi / 2 \<or> arctan2 y x = - (pi / 2) \<or> arctan2 y x = 0"
        using False nx by (simp add: arctan2_def)
      moreover have "- pi < pi / 2" "pi / 2 \<le> pi" "- pi < - (pi / 2)" "- (pi / 2) \<le> pi"
        "- pi < 0" "0 \<le> pi"
        using p by linarith+
      ultimately show ?thesis by metis
    qed
  qed
qed

lemma arctan2_zero: "arctan2 0 x = (if x < 0 then pi else 0)"
  by (simp add: arctan2_def)

lemma arctan2_eq_pi_iff: "arctan2 y x = pi \<longleftrightarrow> y = 0 \<and> x < 0"
proof
  assume e: "arctan2 y x = pi"
  have b: "- (pi / 2) < arctan (y / x)" "arctan (y / x) < pi / 2"
    by (rule arctan_lbound, rule arctan_ubound)
  have p: "0 < pi" by (rule pi_gt_zero)
  have x: "x < 0"
  proof (rule ccontr)
    assume "\<not> x < 0"
    then have "arctan2 y x < pi" using b p by (simp add: arctan2_def)
    with e show False by simp
  qed
  have y: "y = 0"
  proof (rule ccontr)
    assume ny: "y \<noteq> 0"
    show False
    proof (cases "y > 0")
      case True
      with x have "y / x < 0" by (simp add: divide_pos_neg)
      then have "arctan (y / x) < 0" by simp
      then have "arctan2 y x < pi" using True x by (simp add: arctan2_def)
      with e show False by simp
    next
      case False
      with ny have "y < 0" by simp
      then have "arctan2 y x < pi" using x b p by (simp add: arctan2_def)
      with e show False by simp
    qed
  qed
  show "y = 0 \<and> x < 0" using x y by simp
next
  assume "y = 0 \<and> x < 0"
  then show "arctan2 y x = pi" by (simp add: arctan2_def)
qed

lemma arctan2_neg: "\<not> (y = 0 \<and> x < 0) \<Longrightarrow> arctan2 (- y) x = - arctan2 y x"
  by (auto simp: arctan2_def arctan_minus)

lemma sdiv_one: "sdiv v 1 = v"
  by (cases v) simp

lemma normalized_unit: "norm3 v = 1 \<Longrightarrow> normalized v = Some v"
  by (simp add: normalized_def sdiv_one)

lemma cross_self: "cross a a = vzero"
  by (cases a) (simp add: vzero_def)

lemma dot_vzero_left: "dot vzero v = 0"
  by (cases v) (simp add: vzero_def)

lemma dot_vzero_right: "dot v vzero = 0"
  by (cases v) (simp add: vzero_def)

lemma dot_cross_swap: "dot (cross b a) n = - dot (cross a b) n"
  by (cases a; cases b; cases n) (simp add: algebra_simps)

lemma signedAngle_unit:
  assumes "norm3 a = 1" "norm3 b = 1" "norm3 n = 1"
  shows "signedAngle a b n = Some (arctan2 (dot (cross a b) n) (dot a b))"
  using assms by (simp add: signedAngle_def normalized_unit sdiv_one)

lemma dot_normalized_sign:
  assumes "a \<noteq> vzero" "b \<noteq> vzero"
  shows "dot (sdiv a (norm3 a)) (sdiv b (norm3 b)) = dot a b / (norm3 a * norm3 b)"
  by (simp add: dot_sdiv_left dot_sdiv_right mult.commute)

text \<open>
  C8, as the code has it: for unit vectors a, b, n the result of \<open>signedAngle\<close> lies
  in (-pi, pi], \<open>signedAngle a a n\<close> is 0, and negating \<open>signedAngle a b n\<close> gives
  \<open>signedAngle b a n\<close> whenever the angle is not pi; when it is pi, the angle from b
  to a is pi as well, since -pi is outside the range of \<open>arctan2\<close>.
\<close>

theorem signedAngle_antisymmetric_except_pi:
  assumes a: "norm3 a = 1" and b: "norm3 b = 1" and n: "norm3 n = 1"
  shows "\<exists>x y. signedAngle a b n = Some x \<and> signedAngle b a n = Some y
               \<and> - pi < x \<and> x \<le> pi
               \<and> (x \<noteq> pi \<longrightarrow> y = - x) \<and> (x = pi \<longrightarrow> y = pi)
               \<and> signedAngle a a n = Some 0"
proof -
  let ?Y = "dot (cross a b) n" and ?X = "dot a b"
  have ab: "signedAngle a b n = Some (arctan2 ?Y ?X)"
    using a b n by (rule signedAngle_unit)
  have ba: "signedAngle b a n = Some (arctan2 (- ?Y) ?X)"
    using signedAngle_unit [OF b a n] by (simp add: dot_cross_swap [of a b n] dot_commute [of b a])
  have "dot a a = 1" using a norm3_sq [of a] by simp
  then have aa: "signedAngle a a n = Some 0"
    using signedAngle_unit [OF a a n] by (simp add: cross_self dot_vzero_left arctan2_zero)
  have r: "- pi < arctan2 ?Y ?X \<and> arctan2 ?Y ?X \<le> pi" by (rule arctan2_range)
  have ne: "arctan2 ?Y ?X \<noteq> pi \<longrightarrow> arctan2 (- ?Y) ?X = - arctan2 ?Y ?X"
    using arctan2_neg [of ?Y ?X] by (simp add: arctan2_eq_pi_iff)
  have eq: "arctan2 ?Y ?X = pi \<longrightarrow> arctan2 (- ?Y) ?X = pi"
    by (simp add: arctan2_eq_pi_iff)
  show ?thesis using ab ba aa r ne eq by simp
qed

theorem signedAngle_antisymmetric_except_pi_witness:
  "norm3 (1, 0, 0) = 1 \<and> norm3 (0, 1, 0) = 1 \<and> norm3 (0, 0, 1) = 1
   \<and> signedAngle (1, 0, 0) (0, 1, 0) (0, 0, 1) = Some (pi / 2)
   \<and> signedAngle (0, 1, 0) (1, 0, 0) (0, 0, 1) = Some (- (pi / 2))"
proof -
  have ab: "signedAngle (1, 0, 0) (0, 1, 0) (0, 0, 1) = Some (pi / 2)"
    by (simp add: signedAngle_unit norm3_unit_x norm3_unit_y norm3_unit_z arctan2_def)
  from signedAngle_antisymmetric_except_pi [OF norm3_unit_x norm3_unit_y norm3_unit_z]
  obtain x y where xy: "signedAngle (1, 0, 0) (0, 1, 0) (0, 0, 1) = Some x"
    "signedAngle (0, 1, 0) (1, 0, 0) (0, 0, 1) = Some y" "x \<noteq> pi \<longrightarrow> y = - x" by blast
  from xy(1) ab have x: "x = pi / 2" by simp
  have "x \<noteq> pi" using x pi_gt_zero by linarith
  with xy(3) have "y = - x" by blast
  with x have "y = - (pi / 2)" by simp
  with xy(2) ab show ?thesis by (simp add: norm3_unit_x norm3_unit_y norm3_unit_z)
qed

text \<open>
  C8 as stated fails for antiparallel unit vectors: from (1,0,0) to (-1,0,0) about
  (0,0,1) the angle is pi in both directions, and -pi is not pi.
\<close>

theorem signedAngle_antisymmetry_counterexample:
  "signedAngle (1, 0, 0) (- 1, 0, 0) (0, 0, 1) = Some pi
   \<and> signedAngle (- 1, 0, 0) (1, 0, 0) (0, 0, 1) = Some pi
   \<and> - pi \<noteq> pi
   \<and> norm3 (1, 0, 0) = 1 \<and> norm3 (- 1, 0, 0) = 1 \<and> norm3 (0, 0, 1) = 1"
proof -
  have m: "norm3 (- 1, 0, 0) = 1" by (simp add: norm3_def)
  have "- pi \<noteq> pi" using pi_gt_zero by simp
  then show ?thesis
    by (simp add: signedAngle_unit norm3_unit_x norm3_unit_z m arctan2_def)
qed

text \<open>
  C9: for nonzero a, b and the zero vector as axis, \<open>signedAngle\<close> leaves the axis
  as it is and returns \<open>arctan2 0 (dot a' b')\<close> for the normalized a', b': the result
  is 0 when \<open>dot a b\<close> is not negative and pi when it is negative; no error is raised.
\<close>

theorem signedAngle_zero_axis:
  assumes a: "a \<noteq> vzero" and b: "b \<noteq> vzero"
  shows "signedAngle a b vzero
           = Some (arctan2 0 (dot (sdiv a (norm3 a)) (sdiv b (norm3 b))))
         \<and> (0 \<le> dot a b \<longrightarrow> signedAngle a b vzero = Some 0)
         \<and> (dot a b < 0 \<longrightarrow> signedAngle a b vzero = Some pi)"
proof -
  have pa: "0 < norm3 a" and pb: "0 < norm3 b" using a b by (simp_all add: norm3_pos)
  have nz: "norm3 vzero = 0" by (simp add: norm3_eq_0)
  have s: "signedAngle a b vzero
           = Some (arctan2 0 (dot (sdiv a (norm3 a)) (sdiv b (norm3 b))))"
    using pa pb nz by (simp add: signedAngle_def normalized_def dot_vzero_right)
  have d: "dot (sdiv a (norm3 a)) (sdiv b (norm3 b)) = dot a b / (norm3 a * norm3 b)"
    using a b by (rule dot_normalized_sign)
  have p: "0 < norm3 a * norm3 b" using pa pb by simp
  have lt: "dot a b / (norm3 a * norm3 b) < 0 \<longleftrightarrow> dot a b < 0"
    using p by (simp add: divide_less_0_iff not_less [symmetric] less_imp_le less_asym)
  show ?thesis using s d lt by (simp add: arctan2_zero not_less [symmetric])
qed

theorem signedAngle_zero_axis_witness:
  "(1, 0, 0) \<noteq> vzero \<and> (- 2, 3, 0) \<noteq> vzero \<and> dot (1, 0, 0) (- 2, 3, 0) < 0
   \<and> signedAngle (1, 0, 0) (- 2, 3, 0) vzero = Some pi
   \<and> 0 \<le> dot (1, 0, 0) (0, 5, 0) \<and> signedAngle (1, 0, 0) (0, 5, 0) vzero = Some 0"
proof -
  have h1: "(1, 0, 0) \<noteq> vzero" and h2: "(- 2, 3, 0) \<noteq> vzero" and h3: "(0, 5, 0) \<noteq> vzero"
    by (simp_all add: vzero_def)
  show ?thesis
    using signedAngle_zero_axis [OF h1 h2, THEN conjunct2]
      signedAngle_zero_axis [OF h1 h3, THEN conjunct2] h1 h2
    by simp
qed

section \<open>Circle3D\<close>

lemma length_linspace: "length (linspace a b n) = n"
  by (simp add: linspace_def)

lemma linspace_first: "2 \<le> n \<Longrightarrow> linspace a b n ! 0 = a"
  by (simp add: linspace_def nth_list_update)

lemma linspace_last: "2 \<le> n \<Longrightarrow> linspace a b n ! (n - 1) = b"
  by (simp add: linspace_def)

lemma linspace_nth:
  "2 \<le> n \<Longrightarrow> i < n \<Longrightarrow> linspace a b n ! i = a + real i * ((b - a) / real (n - 1))"
proof -
  assume n: "2 \<le> n" and i: "i < n"
  show ?thesis
  proof (cases "i = n - 1")
    case True
    have "real (n - 1) \<noteq> 0" using n by simp
    then have "a + real (n - 1) * ((b - a) / real (n - 1)) = b" by simp
    then show ?thesis using True n by (simp add: linspace_def)
  next
    case False
    then show ?thesis using n i by (simp add: linspace_def)
  qed
qed

lemma dot_vadd_left: "dot (vadd a b) c = dot a c + dot b c"
  by (cases a; cases b; cases c) (simp add: algebra_simps)

lemma dot_vadd_right: "dot a (vadd b c) = dot a b + dot a c"
  by (cases a; cases b; cases c) (simp add: algebra_simps)

lemma vsub_vadd_cancel: "vsub (vadd (vadd c a) b) c = vadd a b"
  by (cases a; cases b; cases c) simp

lemma lagrange: "dot (cross a b) (cross a b) = dot a a * dot b b - (dot a b)\<^sup>2"
  by (cases a; cases b) (simp add: power2_eq_square algebra_simps)

lemma norm3_eq_1_iff: "norm3 v = 1 \<longleftrightarrow> dot v v = 1"
  by (simp add: norm3_def)

lemma norm3_cross_unit:
  assumes "norm3 a = 1" "norm3 b = 1" "dot a b = 0"
  shows "norm3 (cross a b) = 1"
  using assms by (simp add: norm3_eq_1_iff lagrange)

lemma in_plane_combination:
  assumes u: "dot u u = 1" and v: "dot v v = 1" and uv: "dot u v = 0"
  shows "dot (vadd (smul (r * cos t) u) (smul (r * sin t) v))
             (vadd (smul (r * cos t) u) (smul (r * sin t) v)) = r\<^sup>2"
proof -
  have vu: "dot v u = 0" using uv by (simp add: dot_commute)
  have "dot (vadd (smul (r * cos t) u) (smul (r * sin t) v))
            (vadd (smul (r * cos t) u) (smul (r * sin t) v))
        = (r * cos t)\<^sup>2 + (r * sin t)\<^sup>2"
    by (simp add: dot_vadd_left dot_vadd_right dot_smul_left dot_smul_right u v uv vu
        power2_eq_square)
  also have "\<dots> = r\<^sup>2 * ((cos t)\<^sup>2 + (sin t)\<^sup>2)"
    by (simp only: power_mult_distrib distrib_left)
  also have "\<dots> = r\<^sup>2 * 1" by (simp only: sin_cos_squared_add2)
  finally have "dot (vadd (smul (r * cos t) u) (smul (r * sin t) v))
            (vadd (smul (r * cos t) u) (smul (r * sin t) v)) = r\<^sup>2 * 1" .
  then show ?thesis by (simp only: mult_1_right)
qed

lemma circle_point_props:
  assumes n: "norm3 (circ_n C) = 1" and u: "norm3 u = 1" and nu: "dot (circ_n C) u = 0"
  shows "norm3 (vsub (circle_point C u (cross (circ_n C) u) t) (circ_c C)) = \<bar>circ_r C\<bar>"
    and "dot (vsub (circle_point C u (cross (circ_n C) u) t) (circ_c C)) (circ_n C) = 0"
proof -
  let ?v = "cross (circ_n C) u"
  have v: "dot ?v ?v = 1"
    using norm3_cross_unit [OF n u nu] by (simp add: norm3_eq_1_iff)
  have uu: "dot u u = 1" using u by (simp add: norm3_eq_1_iff)
  have uv: "dot u ?v = 0" by (rule dot_cross_right)
  have d: "vsub (circle_point C u ?v t) (circ_c C)
           = vadd (smul (circ_r C * cos t) u) (smul (circ_r C * sin t) ?v)"
    by (simp add: circle_point_def vsub_vadd_cancel)
  show "norm3 (vsub (circle_point C u ?v t) (circ_c C)) = \<bar>circ_r C\<bar>"
    by (simp add: d norm3_def in_plane_combination [OF uu v uv])
  have un: "dot u (circ_n C) = 0" using nu by (simp add: dot_commute)
  show "dot (vsub (circle_point C u ?v t) (circ_c C)) (circ_n C) = 0"
    by (simp add: d dot_vadd_left dot_smul_left un dot_cross_left')
qed

lemma Circle3D_init_ok:
  assumes "normal \<noteq> vzero"
  shows "Circle3D_init radius center normal
         = Inr \<lparr>circ_r = radius, circ_c = center, circ_n = sdiv normal (norm3 normal)\<rparr>"
  using assms by (simp add: Circle3D_init_def norm3_pos)

lemma Circle3D_interpolate_ok:
  assumes ns: "null_space_ok (circ_n C) (circ_n C) (null_space (circ_n C) (circ_n C))"
  shows "\<exists>u. norm3 u = 1 \<and> dot (circ_n C) u = 0
           \<and> Circle3D_interpolate null_space C count
             = Inr (map (circle_point C u (cross (circ_n C) u)) (linspace 0 (2 * pi) count))"
proof -
  from ns obtain w ws where c: "null_space (circ_n C) (circ_n C) = w # ws"
    and w: "norm3 w = 1" "dot (circ_n C) w = 0"
    by (cases "null_space (circ_n C) (circ_n C)") (auto simp: null_space_ok_def)
  have "unitNormalToBoth null_space (circ_n C) (circ_n C) = Inr w"
    using c by (simp add: unitNormalToBoth_degenerate cross_self)
  then have "Circle3D_interpolate null_space C count
             = Inr (map (circle_point C w (cross (circ_n C) w)) (linspace 0 (2 * pi) count))"
    by (simp add: Circle3D_interpolate_def Let_def)
  with w show ?thesis by blast
qed

lemma dot_sdiv_zero_iff: "k \<noteq> 0 \<Longrightarrow> dot a (sdiv b k) = 0 \<longleftrightarrow> dot a b = 0"
  by (simp add: dot_sdiv_right)

lemma Circle3D_any_radius_aux:
  assumes nz: "normal \<noteq> vzero"
  shows "\<exists>C. Circle3D_init radius center normal = Inr C
           \<and> circ_r C = radius \<and> norm3 (circ_n C) = 1
           \<and> (null_space_ok (circ_n C) (circ_n C) (null_space (circ_n C) (circ_n C))
                \<longrightarrow> (\<exists>pts. Circle3D_interpolate null_space C count = Inr pts
                       \<and> length pts = count
                       \<and> (\<forall>p \<in> set pts. norm3 (vsub p center) = \<bar>radius\<bar>)))"
proof -
  let ?C = "\<lparr>circ_r = radius, circ_c = center, circ_n = sdiv normal (norm3 normal)\<rparr>"
  have init: "Circle3D_init radius center normal = Inr ?C" using nz by (rule Circle3D_init_ok)
  have n1: "norm3 (circ_n ?C) = 1" using nz by (simp add: norm3_sdiv_self)
  have ip: "\<exists>pts. Circle3D_interpolate null_space ?C count = Inr pts
                       \<and> length pts = count
                       \<and> (\<forall>p \<in> set pts. norm3 (vsub p center) = \<bar>radius\<bar>)"
    if ns: "null_space_ok (circ_n ?C) (circ_n ?C) (null_space (circ_n ?C) (circ_n ?C))"
  proof -
    from Circle3D_interpolate_ok [where C = ?C and null_space = null_space and count = count, OF ns]
    obtain u where u: "norm3 u = 1" "dot (circ_n ?C) u = 0"
      and e: "Circle3D_interpolate null_space ?C count
             = Inr (map (circle_point ?C u (cross (circ_n ?C) u)) (linspace 0 (2 * pi) count))"
      by blast
    have "norm3 (vsub (circle_point ?C u (cross (circ_n ?C) u) t) center) = \<bar>radius\<bar>" for t
      using circle_point_props(1) [OF n1 u(1) u(2), of t] by simp
    then have "\<forall>p \<in> set (map (circle_point ?C u (cross (circ_n ?C) u)) (linspace 0 (2 * pi) count)).
                norm3 (vsub p center) = \<bar>radius\<bar>"
      by auto
    with e show ?thesis by (simp add: length_linspace)
  qed
  show ?thesis using init n1 ip by (intro exI [of _ ?C]) simp
qed

text \<open>
  The samples of a circle for any radius the constructor accepts: they lie at
  distance \<open>\<bar>radius\<bar>\<close> from the centre, in the plane of the circle.
\<close>

lemma Circle3D_samples_abs_radius:
  assumes nz: "normal \<noteq> vzero"
    and ns: "null_space_ok (sdiv normal (norm3 normal)) (sdiv normal (norm3 normal))
               (null_space (sdiv normal (norm3 normal)) (sdiv normal (norm3 normal)))"
  shows "\<exists>C pts. Circle3D_init radius center normal = Inr C
           \<and> Circle3D_interpolate null_space C count = Inr pts
           \<and> length pts = count
           \<and> (\<forall>p \<in> set pts. norm3 (vsub p center) = \<bar>radius\<bar>
                 \<and> dot (vsub p center) normal = 0)
           \<and> (2 \<le> count \<longrightarrow> pts ! 0 = pts ! (count - 1))"
proof -
  let ?C = "\<lparr>circ_r = radius, circ_c = center, circ_n = sdiv normal (norm3 normal)\<rparr>"
  have init: "Circle3D_init radius center normal = Inr ?C" using nz by (rule Circle3D_init_ok)
  have n1: "norm3 (circ_n ?C) = 1" using nz by (simp add: norm3_sdiv_self)
  have ns': "null_space_ok (circ_n ?C) (circ_n ?C) (null_space (circ_n ?C) (circ_n ?C))"
    using ns by simp
  from Circle3D_interpolate_ok [where C = ?C and null_space = null_space and count = count, OF ns']
  obtain u where
    u: "norm3 u = 1" "dot (circ_n ?C) u = 0"
    and ip: "Circle3D_interpolate null_space ?C count
             = Inr (map (circle_point ?C u (cross (circ_n ?C) u)) (linspace 0 (2 * pi) count))"
    by blast
  let ?f = "circle_point ?C u (cross (circ_n ?C) u)"
  let ?pts = "map ?f (linspace 0 (2 * pi) count)"
  have pos: "norm3 normal \<noteq> 0" using nz by (simp add: norm3_eq_0)
  have pt: "norm3 (vsub (?f t) center) = \<bar>radius\<bar> \<and> dot (vsub (?f t) center) normal = 0" for t
  proof -
    have a: "norm3 (vsub (?f t) (circ_c ?C)) = \<bar>circ_r ?C\<bar>"
      and b: "dot (vsub (?f t) (circ_c ?C)) (circ_n ?C) = 0"
      using circle_point_props [OF n1 u(1) u(2), of t] by blast+
    from b have "dot (vsub (?f t) center) normal / norm3 normal = 0"
      by (simp add: dot_sdiv_right)
    with pos have "dot (vsub (?f t) center) normal = 0" by simp
    with a show ?thesis by simp
  qed
  have all: "\<forall>p \<in> set ?pts. norm3 (vsub p center) = \<bar>radius\<bar> \<and> dot (vsub p center) normal = 0"
    using pt by auto
  have closed: "2 \<le> count \<longrightarrow> ?pts ! 0 = ?pts ! (count - 1)"
  proof
    assume c: "2 \<le> count"
    have l0: "linspace 0 (2 * pi) count ! 0 = 0" using c by (rule linspace_first)
    have l1: "linspace 0 (2 * pi) count ! (count - 1) = 2 * pi" using c by (rule linspace_last)
    have "?pts ! 0 = ?f (linspace 0 (2 * pi) count ! 0)"
      using c by (intro nth_map) (simp add: length_linspace)
    then have "?pts ! 0 = ?f 0" by (simp only: l0)
    moreover have "?pts ! (count - 1) = ?f (linspace 0 (2 * pi) count ! (count - 1))"
      using c by (intro nth_map) (simp add: length_linspace)
    then have "?pts ! (count - 1) = ?f (2 * pi)" by (simp only: l1)
    moreover have "?f 0 = ?f (2 * pi)" by (simp add: circle_point_def)
    ultimately show "?pts ! 0 = ?pts ! (count - 1)" by simp
  qed
  have len: "length ?pts = count" by (simp add: length_linspace)
  show ?thesis using init ip len all closed by blast
qed

text \<open>
  C6: for every Circle3D built from a nonzero normal, with the radius of the data
  model (not negative), every point that \<open>interpolate\<close> returns is at distance
  \<open>radius\<close> from the centre and lies in the plane through the centre with the given
  normal; \<open>interpolate\<close> returns \<open>count\<close> points, and for \<open>count\<close> of at least 2 the
  first and the last sample coincide.
\<close>

theorem Circle3D_samples_on_circle:
  assumes nz: "normal \<noteq> vzero" and r: "0 \<le> radius"
    and ns: "null_space_ok (sdiv normal (norm3 normal)) (sdiv normal (norm3 normal))
               (null_space (sdiv normal (norm3 normal)) (sdiv normal (norm3 normal)))"
  shows "\<exists>C pts. Circle3D_init radius center normal = Inr C
           \<and> Circle3D_interpolate null_space C count = Inr pts
           \<and> length pts = count
           \<and> (\<forall>p \<in> set pts. norm3 (vsub p center) = radius
                 \<and> dot (vsub p center) normal = 0)
           \<and> (2 \<le> count \<longrightarrow> pts ! 0 = pts ! (count - 1))"
proof -
  have "\<bar>radius\<bar> = radius" using r by simp
  with Circle3D_samples_abs_radius [where normal = normal and null_space = null_space
      and radius = radius and center = center and count = count, OF nz ns]
  show ?thesis by simp
qed

theorem Circle3D_samples_on_circle_witness:
  "(0, 0, 1) \<noteq> vzero \<and> (0::real) \<le> 2
   \<and> null_space_ok (0, 0, 1) (0, 0, 1) [(1, 0, 0), (0, 1, 0)]
   \<and> (\<exists>C pts. Circle3D_init 2 (0, 0, 0) (0, 0, 1) = Inr C
          \<and> Circle3D_interpolate (\<lambda>u v. [(1, 0, 0), (0, 1, 0)]) C 4 = Inr pts
          \<and> length pts = 4
          \<and> (\<forall>p \<in> set pts. norm3 (vsub p (0, 0, 0)) = 2 \<and> dot (vsub p (0, 0, 0)) (0, 0, 1) = 0)
          \<and> pts ! 0 = pts ! 3)"
proof -
  have h1: "(0, 0, 1) \<noteq> vzero" by (simp add: vzero_def)
  have h0: "(0::real) \<le> 2" by simp
  have n: "sdiv (0, 0, 1) (norm3 (0, 0, 1)) = (0, 0, 1)" by (simp add: norm3_unit_z)
  have h2: "null_space_ok (0, 0, 1) (0, 0, 1) [(1, 0, 0), (0, 1, 0)]"
    by (simp add: null_space_ok_def norm3_unit_x norm3_unit_y)
  have h2': "null_space_ok (sdiv (0, 0, 1) (norm3 (0, 0, 1))) (sdiv (0, 0, 1) (norm3 (0, 0, 1)))
               [(1, 0, 0), (0, 1, 0)]"
    using h2 by (simp only: n)
  from Circle3D_samples_on_circle [where normal = "(0, 0, 1)"
      and null_space = "\<lambda>u v. [(1, 0, 0), (0, 1, 0)]" and radius = 2
      and center = "(0, 0, 0)" and count = 4, OF h1 h0 h2']
  have "\<exists>C pts. Circle3D_init 2 (0, 0, 0) (0, 0, 1) = Inr C
          \<and> Circle3D_interpolate (\<lambda>u v. [(1, 0, 0), (0, 1, 0)]) C 4 = Inr pts
          \<and> length pts = 4
          \<and> (\<forall>p \<in> set pts. norm3 (vsub p (0, 0, 0)) = 2 \<and> dot (vsub p (0, 0, 0)) (0, 0, 1) = 0)
          \<and> pts ! 0 = pts ! 3"
    by simp
  with h1 h0 h2 show ?thesis by blast
qed

text \<open>
  C10: the constructor of Circle3D checks the normal only. It raises exactly when
  the normal is the zero vector; for every radius, zero and negative ones included,
  a nonzero normal gives an object that stores the radius as given and a normal of
  unit length, and \<open>interpolate\<close> returns \<open>count\<close> points at distance \<open>\<bar>radius\<bar>\<close> from
  the centre.
\<close>

theorem Circle3D_any_radius:
  "(Circle3D_init radius center normal = Inl AssertionError \<longleftrightarrow> normal = vzero)
   \<and> (normal \<noteq> vzero \<longrightarrow>
        (\<exists>C. Circle3D_init radius center normal = Inr C
           \<and> circ_r C = radius \<and> norm3 (circ_n C) = 1
           \<and> (null_space_ok (circ_n C) (circ_n C) (null_space (circ_n C) (circ_n C))
                \<longrightarrow> (\<exists>pts. Circle3D_interpolate null_space C count = Inr pts
                       \<and> length pts = count
                       \<and> (\<forall>p \<in> set pts. norm3 (vsub p center) = \<bar>radius\<bar>)))))"
proof -
  have "Circle3D_init radius center normal = Inl AssertionError \<longleftrightarrow> normal = vzero"
    by (simp add: Circle3D_init_def norm3_pos)
  then show ?thesis
    using Circle3D_any_radius_aux [of normal radius center null_space count] by blast
qed

theorem Circle3D_any_radius_witness:
  "(0, 0, 1) \<noteq> vzero
   \<and> null_space_ok (0, 0, 1) (0, 0, 1) [(1, 0, 0), (0, 1, 0)]
   \<and> Circle3D_init (- 2) (0, 0, 0) (0, 0, 1)
       = Inr \<lparr>circ_r = - 2, circ_c = (0, 0, 0), circ_n = (0, 0, 1)\<rparr>
   \<and> (\<exists>pts. Circle3D_interpolate (\<lambda>u v. [(1, 0, 0), (0, 1, 0)])
                 \<lparr>circ_r = - 2, circ_c = (0, 0, 0), circ_n = (0, 0, 1)\<rparr> 4 = Inr pts
          \<and> length pts = 4
          \<and> (\<forall>p \<in> set pts. norm3 (vsub p (0, 0, 0)) = 2))"
proof -
  have h1: "(0, 0, 1) \<noteq> vzero" by (simp add: vzero_def)
  have h2: "null_space_ok (0, 0, 1) (0, 0, 1) [(1, 0, 0), (0, 1, 0)]"
    by (simp add: null_space_ok_def norm3_unit_x norm3_unit_y)
  have i: "Circle3D_init (- 2) (0, 0, 0) (0, 0, 1)
           = Inr \<lparr>circ_r = - 2, circ_c = (0, 0, 0), circ_n = (0, 0, 1)\<rparr>"
    by (simp add: Circle3D_init_def norm3_unit_z)
  from Circle3D_any_radius [where normal = "(0, 0, 1)" and radius = "- 2"
      and center = "(0, 0, 0)" and null_space = "\<lambda>u v. [(1, 0, 0), (0, 1, 0)]" and count = 4]
  show ?thesis using h1 h2 i by auto
qed

section \<open>Arc3D: sampling and end point\<close>

lemma sdiv_eq_smul: "sdiv v k = smul (1 / k) v"
  by (cases v) simp

lemma smul_smul: "smul a (smul b v) = smul (a * b) v"
  by (cases v) (simp add: algebra_simps)

lemma smul_one: "smul 1 v = v"
  by (cases v) simp

lemma smul_zero: "smul 0 v = vzero"
  by (cases v) (simp add: vzero_def)

lemma vadd_vzero_right: "vadd v vzero = v"
  by (cases v) (simp add: vzero_def)

lemma vadd_assoc: "vadd (vadd a b) c = vadd a (vadd b c)"
  by (cases a; cases b; cases c) simp

lemma vadd_vsub_cancel: "vadd c (vsub s c) = s"
  by (cases s; cases c) simp

lemma cross_smul_left: "cross (smul k a) b = smul k (cross a b)"
  by (cases a; cases b) (simp add: algebra_simps)

lemma cross_smul_right: "cross a (smul k b) = smul k (cross a b)"
  by (cases a; cases b) (simp add: algebra_simps)

lemma vneg_eq_smul: "vneg v = smul (- 1) v"
  by (cases v) simp

lemma dot_self_smul: "dot (smul k v) (smul k v) = k\<^sup>2 * dot v v"
  by (cases v) (simp add: power2_eq_square algebra_simps)

lemma norm3_smul: "norm3 (smul k v) = \<bar>k\<bar> * norm3 v"
  by (simp add: norm3_def dot_self_smul real_sqrt_mult)

lemma norm3_vneg: "norm3 (vneg v) = norm3 v"
  by (simp add: vneg_eq_smul norm3_smul)

text \<open>Rotation about a unit axis orthogonal to the rotated vector.\<close>

lemma rotvec_apply_axis:
  assumes b: "norm3 b = 1" and bc: "dot b c = 0"
  shows "rotvec_apply (smul th b) c = vadd (smul (cos th) c) (smul (sin th) (cross b c))"
proof (cases "th = 0")
  case True
  then show ?thesis
    by (simp add: rotvec_apply_def Let_def norm3_eq_0 smul_one smul_zero vadd_vzero_right)
next
  case False
  have ang: "norm3 (smul th b) = \<bar>th\<bar>" using b by (simp add: norm3_smul)
  have nz: "\<bar>th\<bar> \<noteq> 0" using False by simp
  have k: "sdiv (smul th b) \<bar>th\<bar> = smul (sgn th) b"
    using False by (simp add: sdiv_eq_smul smul_smul sgn_real_def)
  have dk: "dot (smul (sgn th) b) c = 0" using bc by (simp add: dot_smul_left)
  have s: "sin \<bar>th\<bar> * sgn th = sin th" by (simp add: sgn_real_def abs_real_def)
  have c: "cos \<bar>th\<bar> = cos th" by simp
  have "rotvec_apply (smul th b) c
        = vadd (vadd (smul (cos \<bar>th\<bar>) c) (smul (sin \<bar>th\<bar>) (cross (smul (sgn th) b) c)))
               (smul ((1 - cos \<bar>th\<bar>) * dot (smul (sgn th) b) c) (smul (sgn th) b))"
    using nz by (simp add: rotvec_apply_def Let_def ang k)
  also have "\<dots> = vadd (smul (cos th) c) (smul (sin \<bar>th\<bar> * sgn th) (cross b c))"
    by (simp only: dk c mult_zero_right mult_zero_left smul_zero vadd_vzero_right
        cross_smul_left smul_smul)
  finally show ?thesis by (simp only: s)
qed

lemma Arc3D_init_fields:
  assumes "Arc3D_init center start startDir th = Inr A"
  shows "circleCenter A = center" "theta A = th"
    "arc_r A = norm3 (vsub start center)"
    "startNormal A = sdiv (vneg (vsub start center)) (norm3 (vsub start center))"
    "binormal A = map_option (\<lambda>t. cross t (startNormal A)) (normalized startDir)"
    "endPoint A = map_option (\<lambda>b. vadd center (rotvec_apply (smul th b) (vsub start center)))
                    (binormal A)"
    "start \<noteq> center" "\<bar>dot startDir (vsub start center)\<bar> < 1 / 1000000"
  using assms
  by (auto simp: Arc3D_init_def Let_def norm3_pos vsub_eq_vzero option.map_comp comp_def
      split: if_splits)

lemma Arc3D_init_ok:
  assumes "start \<noteq> center" "\<bar>dot startDir (vsub start center)\<bar> < 1 / 1000000"
  shows "\<exists>A. Arc3D_init center start startDir th = Inr A"
  using assms by (simp add: Arc3D_init_def Let_def norm3_pos vsub_eq_vzero)

lemma vneg_sdiv_vneg: "vneg (sdiv (vneg c) r) = sdiv c r"
  by (cases c) simp

lemma arc_point_radial:
  assumes r: "arc_r A \<noteq> 0"
  shows "arc_point A (sdiv c (arc_r A)) (cross b (sdiv c (arc_r A))) x
         = vadd (circleCenter A) (vadd (smul (cos x) c) (smul (sin x) (cross b c)))"
proof -
  have a: "smul (arc_r A * cos x) (sdiv c (arc_r A)) = smul (cos x) c"
    using r by (simp add: sdiv_eq_smul smul_smul)
  have b: "smul (arc_r A * sin x) (cross b (sdiv c (arc_r A))) = smul (sin x) (cross b c)"
    using r by (simp add: sdiv_eq_smul cross_smul_right smul_smul)
  show ?thesis by (simp only: arc_point_def a b vadd_assoc)
qed

lemma arc_point_radial_0:
  "vadd center (vadd (smul (cos 0) c) (smul (sin 0) w)) = vadd center c"
  by (simp add: smul_one smul_zero vadd_vzero_right)

text \<open>What a successfully constructed arc with a nonzero start direction looks like.\<close>

lemma Arc3D_frame:
  assumes init: "Arc3D_init center start startDir th = Inr A" and dz: "startDir \<noteq> vzero"
  defines "c \<equiv> vsub start center"
  defines "b \<equiv> cross (sdiv startDir (norm3 startDir)) (startNormal A)"
  shows "binormal A = Some b"
    and "arc_r A \<noteq> 0"
    and "vneg (startNormal A) = sdiv c (arc_r A)"
    and "endPoint A = Some (vadd center (rotvec_apply (smul th b) c))"
    and "Arc3D_interpolate A count
         = map (\<lambda>x. Some (vadd center (vadd (smul (cos x) c) (smul (sin x) (cross b c)))))
               (linspace 0 th count)"
    and "dot b c = 0"
proof -
  note f = Arc3D_init_fields [OF init]
  have nd: "norm3 startDir \<noteq> 0" using dz by (simp add: norm3_eq_0)
  show bin: "binormal A = Some b" using nd by (simp add: f(5) normalized_def b_def)
  have "c \<noteq> vzero" using f(7) by (simp add: c_def vsub_eq_vzero)
  then show r: "arc_r A \<noteq> 0" by (simp add: f(3) c_def norm3_eq_0)
  show u: "vneg (startNormal A) = sdiv c (arc_r A)"
    by (simp add: f(3) f(4) c_def vneg_sdiv_vneg)
  show "endPoint A = Some (vadd center (rotvec_apply (smul th b) c))"
    by (simp add: f(6) bin c_def)
  have "Arc3D_interpolate A count
        = map (\<lambda>x. Some (arc_point A (sdiv c (arc_r A)) (cross b (sdiv c (arc_r A))) x))
              (linspace 0 th count)"
    by (simp add: Arc3D_interpolate_def Let_def bin u f(2))
  then show "Arc3D_interpolate A count
         = map (\<lambda>x. Some (vadd center (vadd (smul (cos x) c) (smul (sin x) (cross b c)))))
               (linspace 0 th count)"
    by (simp add: arc_point_radial [OF r] f(1))
  have "startNormal A = smul (- 1 / arc_r A) c"
    by (cases c) (simp add: f(3) f(4) c_def [symmetric])
  then have "c = smul (- arc_r A) (startNormal A)"
    using r by (simp add: smul_smul smul_one)
  then have "dot b c = - arc_r A * dot b (startNormal A)"
    by (metis dot_smul_right)
  then show "dot b c = 0" by (simp add: b_def dot_cross_right')
qed

lemma Arc3D_binormal_unit:
  assumes init: "Arc3D_init center start startDir th = Inr A" and dz: "startDir \<noteq> vzero"
    and orth: "dot startDir (vsub start center) = 0"
  shows "norm3 (cross (sdiv startDir (norm3 startDir)) (startNormal A)) = 1"
proof -
  note f = Arc3D_init_fields [OF init]
  let ?c = "vsub start center"
  have cz: "?c \<noteq> vzero" using f(7) by (simp add: vsub_eq_vzero)
  have t1: "norm3 (sdiv startDir (norm3 startDir)) = 1" using dz by (rule norm3_sdiv_self)
  have "norm3 (sdiv (vneg ?c) (norm3 ?c)) = norm3 (vneg (sdiv (vneg ?c) (norm3 ?c)))"
    by (simp add: norm3_vneg)
  also have "\<dots> = 1" using cz by (simp add: vneg_sdiv_vneg norm3_sdiv_self)
  finally have n1: "norm3 (startNormal A) = 1" by (simp add: f(4))
  have "dot startDir (vneg ?c) = 0" using orth by (simp add: vneg_eq_smul dot_smul_right)
  then have d0: "dot (sdiv startDir (norm3 startDir)) (startNormal A) = 0"
    by (simp add: f(4) dot_sdiv_left dot_sdiv_right)
  show ?thesis using t1 n1 d0 by (rule norm3_cross_unit)
qed

lemma sin_5pi_half: "sin (5 * pi / 2) = 1"
proof -
  have "5 * pi / 2 = pi / 2 + 2 * pi" by simp
  then have "sin (5 * pi / 2) = sin (pi / 2 + 2 * pi)" by simp
  then show ?thesis by (simp only: sin_periodic sin_pi_half)
qed

lemma cos_5pi_half: "cos (5 * pi / 2) = 0"
proof -
  have "5 * pi / 2 = pi / 2 + 2 * pi" by simp
  then have "cos (5 * pi / 2) = cos (pi / 2 + 2 * pi)" by simp
  then show ?thesis by (simp only: cos_periodic cos_pi_half)
qed

lemma norm3_345: "norm3 (3 / 10000000, 4 / 10000000, 0) = 5 / 10000000"
proof -
  have "dot (3 / 10000000, 4 / 10000000, 0) (3 / 10000000, 4 / 10000000, 0)
        = (5 / 10000000)\<^sup>2"
    by (simp add: power2_eq_square)
  then have "norm3 (3 / 10000000, 4 / 10000000, 0) = \<bar>5 / 10000000\<bar>"
    by (simp only: norm3_def real_sqrt_abs)
  then show ?thesis by simp
qed

text \<open>The quarter turn of the specification's scenario.\<close>

lemma quarter_turn_fields:
  assumes init: "Arc3D_init (0, 0, 0) (1, 0, 0) (0, 0, 1) (pi / 2) = Inr A"
  shows "binormal A = Some (0, - 1, 0)"
    and "endPoint A = Some (0, 0, 1)"
    and "Arc3D_interpolate A 3 ! 0 = Some (1, 0, 0)"
    and "Arc3D_interpolate A 3 ! 2 = Some (0, 0, 1)"
    and "length (Arc3D_interpolate A 3) = 3"
proof -
  have dz: "(0, 0, 1) \<noteq> vzero" by (simp add: vzero_def)
  note f = Arc3D_init_fields [OF init]
  note fr = Arc3D_frame [OF init dz]
  have sn: "startNormal A = (- 1, 0, 0)" by (simp add: f(4) norm3_unit_x)
  have b: "cross (sdiv (0, 0, 1) (norm3 (0, 0, 1))) (startNormal A) = (0, - 1, 0)"
    by (simp only: sn norm3_unit_z) simp
  show "binormal A = Some (0, - 1, 0)" using fr(1) by (simp only: b)
  have b1: "norm3 (0, - 1, 0) = 1" by (simp add: norm3_def)
  have bc: "dot (0, - 1, 0) (vsub (1, 0, 0) (0, 0, 0)) = 0" by simp
  have r: "rotvec_apply (smul (pi / 2) (0, - 1, 0)) (vsub (1, 0, 0) (0, 0, 0)) = (0, 0, 1)"
    by (simp only: rotvec_apply_axis [OF b1 bc]) simp
  have "endPoint A = Some (vadd (0, 0, 0) (0, 0, 1))" using fr(4) by (simp only: b r)
  then show "endPoint A = Some (0, 0, 1)" by simp
  have two: "(2::nat) \<le> 3" by simp
  show "length (Arc3D_interpolate A 3) = 3" by (simp add: fr(5) length_linspace)
  have l0: "linspace 0 (pi / 2) 3 ! 0 = 0" using two by (rule linspace_first)
  have l2: "linspace 0 (pi / 2) 3 ! 2 = pi / 2" using linspace_last [OF two, of 0 "pi / 2"] by simp
  note ip = fr(5) [of 3, unfolded b]
  have "Arc3D_interpolate A 3 ! 0
        = (\<lambda>x. Some (vadd (0, 0, 0) (vadd (smul (cos x) (vsub (1, 0, 0) (0, 0, 0)))
             (smul (sin x) (cross (0, - 1, 0) (vsub (1, 0, 0) (0, 0, 0)))))))
            (linspace 0 (pi / 2) 3 ! 0)"
    unfolding ip by (intro nth_map) (simp add: length_linspace)
  then show "Arc3D_interpolate A 3 ! 0 = Some (1, 0, 0)" by (simp only: l0) simp
  have "Arc3D_interpolate A 3 ! 2
        = (\<lambda>x. Some (vadd (0, 0, 0) (vadd (smul (cos x) (vsub (1, 0, 0) (0, 0, 0)))
             (smul (sin x) (cross (0, - 1, 0) (vsub (1, 0, 0) (0, 0, 0)))))))
            (linspace 0 (pi / 2) 3 ! 2)"
    unfolding ip by (intro nth_map) (simp add: length_linspace)
  then show "Arc3D_interpolate A 3 ! 2 = Some (0, 0, 1)" by (simp only: l2) simp
qed

lemma quarter_turn_init:
  "\<exists>A. Arc3D_init (0, 0, 0) (1, 0, 0) (0, 0, 1) (pi / 2) = Inr A"
  by (rule Arc3D_init_ok) simp_all

text \<open>A start direction that passes the tolerance check without being orthogonal.\<close>

lemma skew_arc_init:
  "\<exists>A. Arc3D_init (0, 0, 0) (1, 0, 0) (3 / 10000000, 4 / 10000000, 0) (5 * pi / 2) = Inr A"
  by (rule Arc3D_init_ok) simp_all

lemma skew_arc_fields:
  assumes init: "Arc3D_init (0, 0, 0) (1, 0, 0) (3 / 10000000, 4 / 10000000, 0) (5 * pi / 2)
                 = Inr A"
  shows "endPoint A = Some (1, 0, 0)"
    and "Arc3D_interpolate A 2 ! 1 = Some (0, 4 / 5, 0)"
    and "length (Arc3D_interpolate A 2) = 2"
proof -
  have dz: "(3 / 10000000, 4 / 10000000, 0) \<noteq> vzero" by (simp add: vzero_def)
  note f = Arc3D_init_fields [OF init]
  note fr = Arc3D_frame [OF init dz]
  have sn: "startNormal A = (- 1, 0, 0)" by (simp add: f(4) norm3_unit_x)
  have b: "cross (sdiv (3 / 10000000, 4 / 10000000, 0) (norm3 (3 / 10000000, 4 / 10000000, 0)))
             (startNormal A) = (0, 0, 4 / 5)"
    by (simp only: sn norm3_345) simp
  have rv: "smul (5 * pi / 2) (0, 0, 4 / 5) = smul (2 * pi) (0, 0, 1)" by simp
  have bc: "dot (0, 0, 1) (vsub (1, 0, 0) (0, 0, 0)) = 0" by simp
  have r: "rotvec_apply (smul (5 * pi / 2) (0, 0, 4 / 5)) (vsub (1, 0, 0) (0, 0, 0)) = (1, 0, 0)"
    by (simp only: rv rotvec_apply_axis [OF norm3_unit_z bc]) simp
  have "endPoint A = Some (vadd (0, 0, 0) (1, 0, 0))" using fr(4) by (simp only: b r)
  then show "endPoint A = Some (1, 0, 0)" by simp
  show "length (Arc3D_interpolate A 2) = 2" by (simp add: fr(5) length_linspace)
  have two: "(2::nat) \<le> 2" by simp
  have l1: "linspace 0 (5 * pi / 2) 2 ! 1 = 5 * pi / 2"
    using linspace_last [OF two, of 0 "5 * pi / 2"] by simp
  note ip = fr(5) [of 2, unfolded b]
  have "Arc3D_interpolate A 2 ! 1
        = (\<lambda>x. Some (vadd (0, 0, 0) (vadd (smul (cos x) (vsub (1, 0, 0) (0, 0, 0)))
             (smul (sin x) (cross (0, 0, 4 / 5) (vsub (1, 0, 0) (0, 0, 0)))))))
            (linspace 0 (5 * pi / 2) 2 ! 1)"
    unfolding ip by (intro nth_map) (simp add: length_linspace)
  then show "Arc3D_interpolate A 2 ! 1 = Some (0, 4 / 5, 0)"
    by (simp only: l1 sin_5pi_half cos_5pi_half) simp
qed

text \<open>
  C5, as the code has it: for an Arc3D that was constructed and a count of at least
  2, \<open>interpolate\<close> returns exactly \<open>count\<close> samples; when \<open>startDir\<close> is not the
  zero vector the i-th sample is the point of the arc at the angle
  \<open>i * theta / (count - 1)\<close>, so the angles are equally spaced from 0 to \<open>theta\<close>, and
  the first sample is the start point; when moreover \<open>startDir\<close> is exactly
  orthogonal to \<open>startPoint - circleCenter\<close>, the last sample is the end point
  computed by the constructor.
\<close>

theorem Arc3D_interpolate_samples:
  assumes init: "Arc3D_init center start startDir th = Inr A" and cnt: "2 \<le> count"
  shows "length (Arc3D_interpolate A count) = count
    \<and> (startDir \<noteq> vzero \<longrightarrow>
         (\<exists>b. binormal A = Some b
            \<and> (\<forall>i<count. Arc3D_interpolate A count ! i
                 = Some (arc_point A (vneg (startNormal A)) (cross b (vneg (startNormal A)))
                           (real i * (th / real (count - 1)))))
            \<and> Arc3D_interpolate A count ! 0 = Some start))
    \<and> (startDir \<noteq> vzero \<and> dot startDir (vsub start center) = 0 \<longrightarrow>
         (\<exists>e. endPoint A = Some e \<and> Arc3D_interpolate A count ! (count - 1) = Some e))"
proof -
  note f = Arc3D_init_fields [OF init]
  have len: "length (Arc3D_interpolate A count) = count"
    by (simp add: Arc3D_interpolate_def Let_def length_linspace)
  have steps: "\<exists>b. binormal A = Some b
            \<and> (\<forall>i<count. Arc3D_interpolate A count ! i
                 = Some (arc_point A (vneg (startNormal A)) (cross b (vneg (startNormal A)))
                           (real i * (th / real (count - 1)))))
            \<and> Arc3D_interpolate A count ! 0 = Some start"
    if dz: "startDir \<noteq> vzero"
  proof -
    let ?b = "cross (sdiv startDir (norm3 startDir)) (startNormal A)"
    note fr = Arc3D_frame [OF init dz]
    have ith: "Arc3D_interpolate A count ! i
                 = Some (arc_point A (vneg (startNormal A)) (cross ?b (vneg (startNormal A)))
                           (real i * (th / real (count - 1))))" if i: "i < count" for i
    proof -
      have "Arc3D_interpolate A count ! i
            = Some (arc_point A (vneg (startNormal A)) (cross ?b (vneg (startNormal A)))
                      (linspace 0 th count ! i))"
        using i by (simp add: Arc3D_interpolate_def Let_def fr(1) f(2) length_linspace)
      then show ?thesis using linspace_nth [OF cnt i, of 0 th] by simp
    qed
    have "Arc3D_interpolate A count ! 0
          = Some (vadd center (vadd (smul (cos 0) (vsub start center))
                                    (smul (sin 0) (cross ?b (vsub start center)))))"
      using cnt linspace_first [OF cnt, of 0 th]
      by (simp add: fr(5) length_linspace)
    then have "Arc3D_interpolate A count ! 0 = Some start"
      by (simp only: arc_point_radial_0 vadd_vsub_cancel)
    with ith fr(1) show ?thesis by blast
  qed
  have ends: "\<exists>e. endPoint A = Some e \<and> Arc3D_interpolate A count ! (count - 1) = Some e"
    if dz: "startDir \<noteq> vzero" and orth: "dot startDir (vsub start center) = 0"
  proof -
    let ?b = "cross (sdiv startDir (norm3 startDir)) (startNormal A)"
    note fr = Arc3D_frame [OF init dz]
    have b1: "norm3 ?b = 1" using init dz orth by (rule Arc3D_binormal_unit)
    have e: "endPoint A = Some (vadd center (vadd (smul (cos th) (vsub start center))
                                    (smul (sin th) (cross ?b (vsub start center)))))"
      by (simp only: fr(4) rotvec_apply_axis [OF b1 fr(6)])
    have l: "linspace 0 th count ! (count - 1) = th" using cnt by (rule linspace_last)
    have "Arc3D_interpolate A count ! (count - 1)
          = (\<lambda>x. Some (vadd center (vadd (smul (cos x) (vsub start center))
                                    (smul (sin x) (cross ?b (vsub start center))))))
              (linspace 0 th count ! (count - 1))"
      unfolding fr(5) using cnt by (intro nth_map) (simp add: length_linspace)
    then have "Arc3D_interpolate A count ! (count - 1)
          = Some (vadd center (vadd (smul (cos th) (vsub start center))
                                    (smul (sin th) (cross ?b (vsub start center)))))"
      by (simp only: l)
    with e show ?thesis by blast
  qed
  show ?thesis using len steps ends by blast
qed

theorem Arc3D_interpolate_samples_witness:
  "\<exists>A. Arc3D_init (0, 0, 0) (1, 0, 0) (0, 2, 0) pi = Inr A
       \<and> (2::nat) \<le> 3 \<and> (0, 2, 0) \<noteq> vzero
       \<and> dot (0, 2, 0) (vsub (1, 0, 0) (0, 0, 0)) = 0
       \<and> length (Arc3D_interpolate A 3) = 3
       \<and> Arc3D_interpolate A 3 ! 0 = Some (1, 0, 0)
       \<and> (\<exists>e. endPoint A = Some e \<and> Arc3D_interpolate A 3 ! 2 = Some e)"
proof -
  have "\<exists>A. Arc3D_init (0, 0, 0) (1, 0, 0) (0, 2, 0) pi = Inr A"
    by (rule Arc3D_init_ok) simp_all
  then obtain A where init: "Arc3D_init (0, 0, 0) (1, 0, 0) (0, 2, 0) pi = Inr A" by blast
  have two: "(2::nat) \<le> 3" by simp
  have dz: "(0, 2, 0) \<noteq> vzero" by (simp add: vzero_def)
  have orth: "dot (0, 2, 0) (vsub (1, 0, 0) (0, 0, 0)) = 0" by simp
  from Arc3D_interpolate_samples [OF init two] dz orth
  have "length (Arc3D_interpolate A 3) = 3
       \<and> Arc3D_interpolate A 3 ! 0 = Some (1, 0, 0)
       \<and> (\<exists>e. endPoint A = Some e \<and> Arc3D_interpolate A 3 ! 2 = Some e)"
    by auto
  with init two dz orth show ?thesis by blast
qed

text \<open>
  C5 as stated fails for a start direction that passes the tolerance check without
  being orthogonal to the radius: with centre (0,0,0), start point (1,0,0),
  \<open>startDir\<close> (3e-7, 4e-7, 0) and sweep 5 pi / 2 the binormal has length 4/5, the
  constructor rotates by 2 pi and ends at (1,0,0), and the last of two samples is
  (0, 4/5, 0).
\<close>

theorem Arc3D_last_sample_counterexample:
  "\<not> isl (Arc3D_init (0, 0, 0) (1, 0, 0) (3 / 10000000, 4 / 10000000, 0) (5 * pi / 2))
   \<and> endPoint (projr (Arc3D_init (0, 0, 0) (1, 0, 0) (3 / 10000000, 4 / 10000000, 0)
                        (5 * pi / 2))) = Some (1, 0, 0)
   \<and> length (Arc3D_interpolate
               (projr (Arc3D_init (0, 0, 0) (1, 0, 0) (3 / 10000000, 4 / 10000000, 0)
                        (5 * pi / 2))) 2) = 2
   \<and> Arc3D_interpolate
       (projr (Arc3D_init (0, 0, 0) (1, 0, 0) (3 / 10000000, 4 / 10000000, 0) (5 * pi / 2))) 2 ! 1
     = Some (0, 4 / 5, 0)
   \<and> Arc3D_interpolate
       (projr (Arc3D_init (0, 0, 0) (1, 0, 0) (3 / 10000000, 4 / 10000000, 0) (5 * pi / 2))) 2 ! 1
     \<noteq> endPoint (projr (Arc3D_init (0, 0, 0) (1, 0, 0) (3 / 10000000, 4 / 10000000, 0)
                        (5 * pi / 2)))"
proof -
  from skew_arc_init obtain A
    where init: "Arc3D_init (0, 0, 0) (1, 0, 0) (3 / 10000000, 4 / 10000000, 0) (5 * pi / 2)
                 = Inr A" by blast
  show ?thesis unfolding init using skew_arc_fields [OF init] by simp
qed

text \<open>
  C4, as the code has it: for centre (0,0,0), start point (1,0,0), \<open>startDir\<close>
  (0,0,1) and sweep pi/2 the binormal is (0,-1,0), the end point is (0,0,1), and
  \<open>interpolate 3\<close> returns three samples, the first (1,0,0) and the last the end
  point.
\<close>

theorem Arc3D_quarter_turn:
  "\<exists>A. Arc3D_init (0, 0, 0) (1, 0, 0) (0, 0, 1) (pi / 2) = Inr A
       \<and> binormal A = Some (0, - 1, 0)
       \<and> endPoint A = Some (0, 0, 1)
       \<and> length (Arc3D_interpolate A 3) = 3
       \<and> Arc3D_interpolate A 3 ! 0 = Some (1, 0, 0)
       \<and> Arc3D_interpolate A 3 ! 2 = endPoint A"
proof -
  from quarter_turn_init obtain A
    where init: "Arc3D_init (0, 0, 0) (1, 0, 0) (0, 0, 1) (pi / 2) = Inr A" by blast
  note q = quarter_turn_fields [OF init]
  show ?thesis using init q by (intro exI [of _ A]) simp
qed

text \<open>
  C4 as stated expects the end point near (0,1,0) or (0,-1,0): the arc lies in the
  plane of the radius and the tangent, the x-z plane, and its end point (0,0,1) is
  at distance sqrt 2 from both.
\<close>

theorem Arc3D_quarter_turn_counterexample:
  "endPoint (projr (Arc3D_init (0, 0, 0) (1, 0, 0) (0, 0, 1) (pi / 2))) = Some (0, 0, 1)
   \<and> norm3 (vsub (0, 0, 1) (0, 1, 0)) = sqrt 2
   \<and> norm3 (vsub (0, 0, 1) (0, - 1, 0)) = sqrt 2"
proof -
  from quarter_turn_init obtain A
    where init: "Arc3D_init (0, 0, 0) (1, 0, 0) (0, 0, 1) (pi / 2) = Inr A" by blast
  have "endPoint (projr (Arc3D_init (0, 0, 0) (1, 0, 0) (0, 0, 1) (pi / 2))) = Some (0, 0, 1)"
    unfolding init using quarter_turn_fields(2) [OF init] by simp
  then show ?thesis by (simp add: norm3_def)
qed

end
